theory Spec2Isabelle
  imports Main "HOL-Library.Sublist" "HOL-Library.Multiset"
begin

section \<open>Python string primitives used by the query-processing agent\<close>

text \<open>
  The agent (\<^verbatim>\<open>qp_agent.py\<close>, class \<^verbatim>\<open>QueryProcessingAgent\<close>) works on Python
  \<^verbatim>\<open>str\<close> values. They are modelled as \<^typ>\<open>string\<close>, one \<^typ>\<open>char\<close> per
  character, with the ASCII behaviour of \<^verbatim>\<open>lower\<close>, \<^verbatim>\<open>strip\<close>, \<^verbatim>\<open>in\<close>,
  \<^verbatim>\<open>startswith\<close> and \<^verbatim>\<open>split\<close>. Characters outside ASCII are left alone by
  \<open>lower\<close> and are never whitespace.
\<close>

datatype exn = ValueError | IndexError | AttributeError | JSONDecodeError | ServiceError

definition lower_char :: "char \<Rightarrow> char" where
  "lower_char c =
     (let n = (of_char c :: nat) in if 65 \<le> n \<and> n \<le> 90 then char_of (n + 32) else c)"

definition lower :: "string \<Rightarrow> string" where
  "lower s = map lower_char s"

definition isspace :: "char \<Rightarrow> bool" where
  "isspace c = (let n = (of_char c :: nat) in (9 \<le> n \<and> n \<le> 13) \<or> (28 \<le> n \<and> n \<le> 32))"

definition strip :: "string \<Rightarrow> string" where
  "strip s = rev (dropWhile isspace (rev (dropWhile isspace s)))"

fun startswith :: "string \<Rightarrow> string \<Rightarrow> bool" where
  "startswith s [] = True"
| "startswith [] (p # ps) = False"
| "startswith (c # cs) (p # ps) = (c = p \<and> startswith cs ps)"

text \<open>\<open>str_in sub s\<close> is Python's \<^verbatim>\<open>sub in s\<close>: \<open>sub\<close> occurs in \<open>s\<close> as a
  contiguous run; the empty string occurs in every string.\<close>

fun str_in :: "string \<Rightarrow> string \<Rightarrow> bool" where
  "str_in sub [] = (sub = [])"
| "str_in sub (c # cs) = (startswith (c # cs) sub \<or> str_in sub cs)"

text \<open>\<^verbatim>\<open>s.split(sep)\<close>: scanning from the left, every occurrence of \<open>sep\<close> found at
  the scanning position ends a piece and is skipped. Python raises \<^verbatim>\<open>ValueError\<close>
  for an empty separator.\<close>

function split_on :: "string \<Rightarrow> string \<Rightarrow> string list" where
  "split_on sep [] = [[]]"
| "split_on sep (c # cs) =
     (if sep \<noteq> [] \<and> startswith (c # cs) sep
      then [] # split_on sep (drop (length sep) (c # cs))
      else (case split_on sep cs of [] \<Rightarrow> [[c]] | p # ps \<Rightarrow> (c # p) # ps))"
  by pat_completeness auto
termination
  by (relation "measure (\<lambda>(sep, s). length s)") auto

definition py_split :: "string \<Rightarrow> string \<Rightarrow> exn + string list" where
  "py_split s sep = (if sep = [] then Inl ValueError else Inr (split_on sep s))"

definition index :: "'a list \<Rightarrow> nat \<Rightarrow> exn + 'a" where
  "index xs i = (if i < length xs then Inr (xs ! i) else Inl IndexError)"

definition bind_exn :: "exn + 'a \<Rightarrow> ('a \<Rightarrow> exn + 'b) \<Rightarrow> exn + 'b" where
  "bind_exn r f = (case r of Inl e \<Rightarrow> Inl e | Inr v \<Rightarrow> f v)"

section \<open>Data model\<close>

text \<open>
  A dataset is one entry of \<^verbatim>\<open>knowledge_base['datasets']\<close>. The keys the agent reads
  with \<^verbatim>\<open>.get(key, default)\<close> may be absent (\<open>None\<close>); the keys it indexes
  directly are always present. Values have the types the annotator writes.
\<close>

record semantic_ctx =
  represents :: "string option"
  domain :: "string option"

record spatial_ctx =
  geometry_type :: "string option"

record dataset =
  file_name :: string
  file_path :: string
  data_type :: string
  semantic_context :: "semantic_ctx option"
  spatial_context :: "spatial_ctx option"
  capable_tasks :: "string list option"

record knowledge_base =
  datasets :: "dataset list"

record parsed_query =
  original_query :: string
  concepts :: "string list"
  entities :: "string list"
  filters :: "string list"
  spatial_relationships :: "string list"
  intent :: string

record ranked =
  dataset :: dataset
  relevance_score :: int
  reasons :: "string list"

section \<open>Ranking: \<^verbatim>\<open>_search_knowledge_base\<close>\<close>

text \<open>Each of the four inner loops threads the pair \<open>(relevance_score, reasons)\<close>.
  The function also lower-cases the intent, which it never reads again.\<close>

definition match_concepts ::
  "string list \<Rightarrow> string \<Rightarrow> string \<Rightarrow> int \<times> string list \<Rightarrow> int \<times> string list" where
  "match_concepts cs domain_s represents_s st =
     fold (\<lambda>concept (score, rs).
             if str_in concept domain_s \<or> str_in concept represents_s
             then (score + 2, rs @ [''Matches concept: '' @ concept])
             else (score, rs)) cs st"

definition match_entities ::
  "string list \<Rightarrow> string \<Rightarrow> int \<times> string list \<Rightarrow> int \<times> string list" where
  "match_entities es represents_s st =
     fold (\<lambda>entity (score, rs).
             if str_in entity represents_s
             then (score + 2, rs @ [''Contains entity: '' @ entity])
             else (score, rs)) es st"

definition match_geometry ::
  "string list \<Rightarrow> string \<Rightarrow> int \<times> string list \<Rightarrow> int \<times> string list" where
  "match_geometry es geometry st =
     fold (\<lambda>entity (score, rs).
             if (str_in ''parcel'' entity \<or> str_in ''building'' entity) \<and> str_in ''polygon'' geometry
             then (score + 1, rs @ [''Geometry matches entity type''])
             else if (str_in ''transit'' entity \<or> str_in ''stop'' entity) \<and> str_in ''point'' geometry
             then (score + 1, rs @ [''Geometry matches entity type''])
             else (score, rs)) es st"

definition match_tasks ::
  "string list \<Rightarrow> string list \<Rightarrow> int \<times> string list \<Rightarrow> int \<times> string list" where
  "match_tasks cs tasks st =
     fold (\<lambda>task (score, rs).
             let task_lower = lower task in
             if list_ex (\<lambda>concept. str_in concept task_lower) cs
             then (score + 1, rs @ [''Capable of related task: '' @ task])
             else (score, rs)) tasks st"

definition score_dataset :: "string list \<Rightarrow> string list \<Rightarrow> dataset \<Rightarrow> int \<times> string list" where
  "score_dataset cs es d =
     (let semantic = (case semantic_context d of None \<Rightarrow> \<lparr>represents = None, domain = None\<rparr>
                                               | Some s \<Rightarrow> s);
          represents_s = lower (case represents semantic of None \<Rightarrow> [] | Some r \<Rightarrow> r);
          domain_s = lower (case domain semantic of None \<Rightarrow> [] | Some r \<Rightarrow> r);
          st = match_concepts cs domain_s represents_s (0, []);
          st = match_entities es represents_s st;
          spatial = (case spatial_context d of None \<Rightarrow> \<lparr>geometry_type = None\<rparr> | Some s \<Rightarrow> s);
          geometry = lower (case geometry_type spatial of None \<Rightarrow> [] | Some g \<Rightarrow> g);
          st = match_geometry es geometry st;
          tasks = (case capable_tasks d of None \<Rightarrow> [] | Some ts \<Rightarrow> ts)
      in match_tasks cs tasks st)"

text \<open>\<^verbatim>\<open>list.sort(key=..., reverse=True)\<close> is a stable sort into descending key
  order: entries with equal keys keep their order.\<close>

definition sort_by_relevance :: "ranked list \<Rightarrow> ranked list" where
  "sort_by_relevance rs = sort_key (\<lambda>x. - relevance_score x) rs"

definition collect_relevant :: "string list \<Rightarrow> string list \<Rightarrow> dataset list \<Rightarrow> ranked list" where
  "collect_relevant cs es ds =
     fold (\<lambda>d relevant_datasets.
             case score_dataset cs es d of (score, rs) \<Rightarrow>
               if score > 0
               then relevant_datasets @ [\<lparr>dataset = d, relevance_score = score, reasons = rs\<rparr>]
               else relevant_datasets) ds []"

definition search_knowledge_base :: "knowledge_base \<Rightarrow> parsed_query \<Rightarrow> ranked list" where
  "search_knowledge_base kb pq =
     (let cs = map lower (concepts pq);
          es = map lower (entities pq)
      in sort_by_relevance (collect_relevant cs es (datasets kb)))"

text \<open>The score and the reasons the loop body computes for one dataset of the
  knowledge base, for a parsed query.\<close>

definition relevance :: "parsed_query \<Rightarrow> dataset \<Rightarrow> int" where
  "relevance pq d = fst (score_dataset (map lower (concepts pq)) (map lower (entities pq)) d)"

definition why_relevant :: "parsed_query \<Rightarrow> dataset \<Rightarrow> string list" where
  "why_relevant pq d = snd (score_dataset (map lower (concepts pq)) (map lower (entities pq)) d)"


text \<open>The conditions of the four loops, as predicates on one concept, entity or task.\<close>

definition concept_hit :: "string \<Rightarrow> string \<Rightarrow> string \<Rightarrow> bool" where
  "concept_hit domain_s represents_s c = (str_in c domain_s \<or> str_in c represents_s)"

definition geometry_hit :: "string \<Rightarrow> string \<Rightarrow> bool" where
  "geometry_hit geometry e =
     ((str_in ''parcel'' e \<or> str_in ''building'' e) \<and> str_in ''polygon'' geometry
      \<or> (str_in ''transit'' e \<or> str_in ''stop'' e) \<and> str_in ''point'' geometry)"

definition task_hit :: "string list \<Rightarrow> string \<Rightarrow> bool" where
  "task_hit cs t = list_ex (\<lambda>c. str_in c (lower t)) cs"

text \<open>The lower-cased strings the loop body reads from a dataset, with the defaults of
  \<^verbatim>\<open>.get\<close>.\<close>

definition represents_of :: "dataset \<Rightarrow> string" where
  "represents_of d =
     lower (case semantic_context d of None \<Rightarrow> []
            | Some s \<Rightarrow> (case represents s of None \<Rightarrow> [] | Some r \<Rightarrow> r))"

definition domain_of :: "dataset \<Rightarrow> string" where
  "domain_of d =
     lower (case semantic_context d of None \<Rightarrow> []
            | Some s \<Rightarrow> (case domain s of None \<Rightarrow> [] | Some r \<Rightarrow> r))"

definition geometry_of :: "dataset \<Rightarrow> string" where
  "geometry_of d =
     lower (case spatial_context d of None \<Rightarrow> []
            | Some s \<Rightarrow> (case geometry_type s of None \<Rightarrow> [] | Some r \<Rightarrow> r))"

definition tasks_of :: "dataset \<Rightarrow> string list" where
  "tasks_of d = (case capable_tasks d of None \<Rightarrow> [] | Some ts \<Rightarrow> ts)"

section \<open>Intent parsing: \<^verbatim>\<open>_parse_query\<close>\<close>

text \<open>
  The text-generation call is outside the program: its outcome is a parameter, \<open>Inr\<close> the
  text of \<^verbatim>\<open>response['message']['content']\<close>, \<open>Inl\<close> an exception raised by the
  call or by reading the response. The whole body runs inside \<^verbatim>\<open>try\<close>, and
  \<^verbatim>\<open>except Exception\<close> returns the degraded result.
\<close>

definition empty_parse :: "string \<Rightarrow> parsed_query" where
  "empty_parse q =
     \<lparr>original_query = q, concepts = [], entities = [], filters = [],
      spatial_relationships = [], intent = []\<rparr>"

definition degraded_parse :: "string \<Rightarrow> parsed_query" where
  "degraded_parse q =
     \<lparr>original_query = q, concepts = [], entities = [], filters = [],
      spatial_relationships = [], intent = q\<rparr>"

text \<open>\<^verbatim>\<open>line.split(marker)[1]\<close>\<close>

definition after_marker :: "string \<Rightarrow> string \<Rightarrow> exn + string" where
  "after_marker line marker = bind_exn (py_split line marker) (\<lambda>parts. index parts 1)"

text \<open>\<^verbatim>\<open>[c.strip() for c in rest.split(',')]\<close>\<close>

definition comma_items :: "string \<Rightarrow> exn + string list" where
  "comma_items rest = bind_exn (py_split rest '','') (\<lambda>parts. Inr (map strip parts))"

definition parse_line :: "parsed_query \<Rightarrow> string \<Rightarrow> exn + parsed_query" where
  "parse_line parsed raw_line =
     (let line = strip raw_line in
      if startswith line ''CONCEPTS:'' then
        bind_exn (after_marker line ''CONCEPTS:'') (\<lambda>rest.
        bind_exn (comma_items rest) (\<lambda>items. Inr (parsed\<lparr>concepts := items\<rparr>)))
      else if startswith line ''ENTITIES:'' then
        bind_exn (after_marker line ''ENTITIES:'') (\<lambda>rest.
        bind_exn (comma_items rest) (\<lambda>items. Inr (parsed\<lparr>entities := items\<rparr>)))
      else if startswith line ''FILTERS:'' then
        bind_exn (after_marker line ''FILTERS:'') (\<lambda>rest.
        bind_exn (comma_items rest) (\<lambda>items. Inr (parsed\<lparr>filters := items\<rparr>)))
      else if startswith line ''SPATIAL:'' then
        bind_exn (after_marker line ''SPATIAL:'') (\<lambda>rest.
        Inr (parsed\<lparr>spatial_relationships := [strip rest]\<rparr>))
      else if startswith line ''INTENT:'' then
        bind_exn (after_marker line ''INTENT:'') (\<lambda>rest.
        Inr (parsed\<lparr>intent := strip rest\<rparr>))
      else Inr parsed)"

fun parse_lines :: "parsed_query \<Rightarrow> string list \<Rightarrow> exn + parsed_query" where
  "parse_lines parsed [] = Inr parsed"
| "parse_lines parsed (l # ls) = bind_exn (parse_line parsed l) (\<lambda>p. parse_lines p ls)"

definition parse_response :: "string \<Rightarrow> string \<Rightarrow> exn + parsed_query" where
  "parse_response q content =
     bind_exn (py_split content [CHR 0x0A]) (\<lambda>ls. parse_lines (empty_parse q) ls)"

definition parse_query :: "string \<Rightarrow> exn + string \<Rightarrow> parsed_query" where
  "parse_query q response =
     (case bind_exn response (parse_response q) of
        Inl e \<Rightarrow> degraded_parse q
      | Inr parsed \<Rightarrow> parsed)"

text \<open>None of the five marker words occurs in a response.\<close>

definition marker_free :: "string \<Rightarrow> bool" where
  "marker_free s = (\<not> str_in ''CONCEPTS'' s \<and> \<not> str_in ''ENTITIES'' s \<and> \<not> str_in ''FILTERS'' s
     \<and> \<not> str_in ''SPATIAL'' s \<and> \<not> str_in ''INTENT'' s)"

section \<open>Ontology activation: \<^verbatim>\<open>_activate_ontology\<close>\<close>

text \<open>
  The ontology is an rdflib graph read through three SPARQL queries. The graph library is
  outside the program, so an ontology is given by the rows each query returns, in the
  order the graph yields them: \<open>typed_labels t\<close> the \<open>(term, label)\<close> rows for nodes of
  type \<open>t\<close>, \<open>outgoing u\<close> the \<open>(relation, target)\<close> rows for subject \<open>u\<close>,
  \<open>methods_for u\<close> the analysis methods that apply to \<open>u\<close>.
\<close>

record ontology =
  typed_labels :: "string \<Rightarrow> (string \<times> string) list"
  outgoing :: "string \<Rightarrow> (string \<times> string) list"
  methods_for :: "string \<Rightarrow> string list"

record relationship =
  rel_subject :: string
  rel_predicate :: string
  rel_object :: string

record activated_context =
  relevant_concepts :: "string list"
  relevant_entities :: "string list"
  relevant_methods :: "string list"
  relationships :: "relationship list"

definition fuzzy_match_ontology_term :: "ontology \<Rightarrow> string \<Rightarrow> string \<Rightarrow> string list" where
  "fuzzy_match_ontology_term onto query_term term_type =
     (let term_lower = lower query_term in
      fold (\<lambda>(node, node_label) matches.
              let label = lower node_label in
              if str_in term_lower label \<or> str_in label term_lower
              then matches @ [node] else matches)
           (typed_labels onto term_type) [])"

text \<open>\<^verbatim>\<open>str(row.method).split('#')[-1]\<close>; a split never yields an empty list.\<close>

definition local_name :: "string \<Rightarrow> string" where
  "local_name uri = last (split_on ''#'' uri)"

definition add_relationships :: "ontology \<Rightarrow> string \<Rightarrow> activated_context \<Rightarrow> activated_context" where
  "add_relationships onto concept_uri ctx =
     fold (\<lambda>(relation, target) ctx.
             ctx\<lparr>relationships := relationships ctx @
                   [\<lparr>rel_subject = concept_uri, rel_predicate = relation, rel_object = target\<rparr>]\<rparr>)
          (outgoing onto concept_uri) ctx"

definition add_methods :: "ontology \<Rightarrow> string \<Rightarrow> activated_context \<Rightarrow> activated_context" where
  "add_methods onto entity_uri ctx =
     fold (\<lambda>m ctx.
             let method_name = local_name m in
             if method_name \<notin> set (relevant_methods ctx)
             then ctx\<lparr>relevant_methods := relevant_methods ctx @ [method_name]\<rparr>
             else ctx)
          (methods_for onto entity_uri) ctx"

definition activate_ontology :: "ontology \<Rightarrow> parsed_query \<Rightarrow> activated_context" where
  "activate_ontology onto pq =
     (let ctx = \<lparr>relevant_concepts = [], relevant_entities = [], relevant_methods = [],
                 relationships = []\<rparr>;
          ctx = fold (\<lambda>concept ctx.
                  ctx\<lparr>relevant_concepts := relevant_concepts ctx @
                        fuzzy_match_ontology_term onto concept ''PlanningConcept''\<rparr>)
                (concepts pq) ctx;
          ctx = fold (\<lambda>entity ctx.
                  ctx\<lparr>relevant_entities := relevant_entities ctx @
                        fuzzy_match_ontology_term onto entity ''UrbanEntity''\<rparr>)
                (entities pq) ctx;
          ctx = fold (add_relationships onto) (relevant_concepts ctx) ctx;
          ctx = fold (add_methods onto) (relevant_entities ctx) ctx
      in ctx)"

text \<open>The step of the methods loop on the list of names: append unless present.\<close>

definition append_new :: "string \<Rightarrow> string list \<Rightarrow> string list" where
  "append_new n acc = (if n \<notin> set acc then acc @ [n] else acc)"

section \<open>Workflow generation and assembly: \<^verbatim>\<open>_generate_analysis_spec\<close>\<close>

text \<open>
  A decoded JSON value. \<open>JObj\<close> lists a dictionary's items; \<^verbatim>\<open>dict.get\<close> is
  \<^const>\<open>map_of\<close> on them. The decoder \<^verbatim>\<open>json.loads\<close> is outside the program and is a
  parameter \<open>json_loads\<close>, \<open>Inl\<close> when it raises.
\<close>

datatype json =
    JNull
  | JBool bool
  | JInt int
  | JFloat int int
  | JStr string
  | JArr "json list"
  | JObj "(string \<times> json) list"

text \<open>\<^verbatim>\<open>workflow.get(key, default)\<close>: only a dictionary has \<^verbatim>\<open>get\<close>.\<close>

definition dict_get :: "json \<Rightarrow> string \<Rightarrow> json \<Rightarrow> exn + json" where
  "dict_get w k dflt =
     (case w of
        JObj items \<Rightarrow> Inr (case map_of items k of None \<Rightarrow> dflt | Some v \<Rightarrow> v)
      | _ \<Rightarrow> Inl AttributeError)"

definition extract_json :: "string \<Rightarrow> exn + string" where
  "extract_json content =
     (if str_in ''```json'' content then
        bind_exn (py_split content ''```json'') (\<lambda>parts.
        bind_exn (index parts 1) (\<lambda>inner.
        bind_exn (py_split inner ''```'') (\<lambda>parts2.
        bind_exn (index parts2 0) (\<lambda>body. Inr (strip body)))))
      else if str_in ''```'' content then
        bind_exn (py_split content ''```'') (\<lambda>parts.
        bind_exn (index parts 1) (\<lambda>inner.
        bind_exn (py_split inner ''```'') (\<lambda>parts2.
        bind_exn (index parts2 0) (\<lambda>body. Inr (strip body)))))
      else Inr content)"

definition fallback_workflow :: json where
  "fallback_workflow =
     JObj [(''steps'', JArr []), (''data_sufficiency'', JStr ''unknown''),
           (''missing_data'', JArr []), (''alternatives'', JStr ''Manual workflow design needed'')]"

text \<open>The \<^verbatim>\<open>try\<close> block and its \<^verbatim>\<open>except Exception\<close> handler.\<close>

definition generate_workflow :: "(string \<Rightarrow> exn + json) \<Rightarrow> exn + string \<Rightarrow> json" where
  "generate_workflow json_loads response =
     (case bind_exn response (\<lambda>raw. bind_exn (extract_json (strip raw)) json_loads) of
        Inl e \<Rightarrow> fallback_workflow
      | Inr workflow \<Rightarrow> workflow)"

record required_item =
  rd_dataset :: string
  rd_file_path :: string
  rd_status :: string
  rd_relevance_score :: int
  rd_why_relevant :: "string list"

record ontology_summary =
  os_concepts :: "string list"
  os_entities :: "string list"
  os_methods :: "string list"

record sufficiency =
  can_complete :: bool
  status :: json
  missing_data :: json
  alternatives :: json

record analysis_spec =
  timestamp :: string
  query :: string
  parsed :: parsed_query
  ontology_context :: ontology_summary
  required_data :: "required_item list"
  analysis_workflow :: json
  sufficiency_check :: sufficiency

definition required_of :: "ranked \<Rightarrow> required_item" where
  "required_of d =
     \<lparr>rd_dataset = file_name (dataset d), rd_file_path = file_path (dataset d),
      rd_status = ''available'', rd_relevance_score = relevance_score d,
      rd_why_relevant = reasons d\<rparr>"

text \<open>
  The prompt built before the call only feeds the text-generation service, whose outcome
  is the parameter \<open>response\<close>; \<open>now\<close> is \<^verbatim>\<open>datetime.now().isoformat()\<close>.
\<close>

definition generate_analysis_spec ::
  "(string \<Rightarrow> exn + json) \<Rightarrow> string \<Rightarrow> exn + string \<Rightarrow> string \<Rightarrow> parsed_query \<Rightarrow>
   activated_context \<Rightarrow> ranked list \<Rightarrow> exn + analysis_spec" where
  "generate_analysis_spec json_loads now response original_q pq octx relevant_data =
     (let workflow = generate_workflow json_loads response in
      bind_exn (dict_get workflow ''steps'' (JArr [])) (\<lambda>steps.
      bind_exn (dict_get workflow ''data_sufficiency'' JNull) (\<lambda>verdict.
      bind_exn (dict_get workflow ''data_sufficiency'' (JStr ''unknown'')) (\<lambda>stat.
      bind_exn (dict_get workflow ''missing_data'' (JArr [])) (\<lambda>missing.
      bind_exn (dict_get workflow ''alternatives'' (JStr [])) (\<lambda>alts.
      Inr \<lparr>timestamp = now, query = original_q, parsed = pq,
           ontology_context =
             \<lparr>os_concepts = relevant_concepts octx, os_entities = relevant_entities octx,
              os_methods = relevant_methods octx\<rparr>,
           required_data = map required_of (take 10 relevant_data),
           analysis_workflow = steps,
           sufficiency_check =
             \<lparr>can_complete = (verdict = JStr ''sufficient''), status = stat,
              missing_data = missing, alternatives = alts\<rparr>\<rparr>))))))"


section \<open>Example inputs\<close>

text \<open>The scenario of the specification: one dataset, one concept, one entity.\<close>

definition scenario_dataset :: dataset where
  "scenario_dataset =
     \<lparr>file_name = ''activity_centers.shp'', file_path = ''data/activity_centers.shp'',
      data_type = ''geospatial'',
      semantic_context = Some \<lparr>represents = Some ''activity center boundaries'',
                               domain = Some ''accessibility''\<rparr>,
      spatial_context = Some \<lparr>geometry_type = Some ''Polygon''\<rparr>,
      capable_tasks = None\<rparr>"

definition scenario_query :: parsed_query where
  "scenario_query =
     \<lparr>original_query = ''Find areas with high accessibility to activity centers'',
      concepts = [''accessibility''], entities = [''activity centers''],
      filters = [], spatial_relationships = [],
      intent = ''Find areas with high accessibility to activity centers''\<rparr>"

text \<open>A small knowledge base: a document without annotations, two point layers and a
  parcel layer.\<close>

definition notes_ds :: dataset where
  "notes_ds =
     \<lparr>file_name = ''notes.txt'', file_path = ''data/notes.txt'', data_type = ''document'',
      semantic_context = None, spatial_context = None, capable_tasks = None\<rparr>"

definition stops_ds :: dataset where
  "stops_ds =
     \<lparr>file_name = ''stops.shp'', file_path = ''data/stops.shp'', data_type = ''geospatial'',
      semantic_context = Some \<lparr>represents = Some ''Bus stop locations'',
                               domain = Some ''Transportation''\<rparr>,
      spatial_context = Some \<lparr>geometry_type = Some ''Point''\<rparr>,
      capable_tasks = Some [''Transit accessibility analysis'']\<rparr>"

definition parcels_ds :: dataset where
  "parcels_ds =
     \<lparr>file_name = ''parcels.shp'', file_path = ''data/parcels.shp'', data_type = ''geospatial'',
      semantic_context = Some \<lparr>represents = Some ''Residential parcels'',
                               domain = Some ''Land Use''\<rparr>,
      spatial_context = Some \<lparr>geometry_type = Some ''Polygon''\<rparr>,
      capable_tasks = Some [''Residential density analysis'', ''Zoning compliance checking'']\<rparr>"

definition stations_ds :: dataset where
  "stations_ds =
     \<lparr>file_name = ''stations.shp'', file_path = ''data/stations.shp'', data_type = ''geospatial'',
      semantic_context = Some \<lparr>represents = Some ''Rail stations'', domain = None\<rparr>,
      spatial_context = Some \<lparr>geometry_type = Some ''MultiPoint''\<rparr>,
      capable_tasks = Some []\<rparr>"

definition demo_kb :: knowledge_base where
  "demo_kb = \<lparr>datasets = [notes_ds, stops_ds, parcels_ds, stations_ds]\<rparr>"

definition demo_query :: parsed_query where
  "demo_query =
     \<lparr>original_query = ''Analyze residential density near transit stops'',
      concepts = [''Density'', ''residential''], entities = [''Parcels'', ''transit stops''],
      filters = [], spatial_relationships = [''near''],
      intent = ''Compute residential density around transit stops''\<rparr>"

text \<open>A small ontology in which the labels of two concepts overlap, and a query whose two
  concepts both match both of them.\<close>

definition demo_ontology :: ontology where
  "demo_ontology =
     \<lparr>typed_labels = (\<lambda>t.
        if t = ''PlanningConcept''
        then [(''http://urbanplanning.org/ontology#Density'', ''Density''),
              (''http://urbanplanning.org/ontology#ResidentialDensity'', ''Residential density'')]
        else if t = ''UrbanEntity''
        then [(''http://urbanplanning.org/ontology#Parcel'', ''Parcel''),
              (''http://urbanplanning.org/ontology#TransitStop'', ''Transit stop'')]
        else []),
      outgoing = (\<lambda>u.
        if u = ''http://urbanplanning.org/ontology#Density''
        then [(''http://urbanplanning.org/ontology#measuredOn'',
               ''http://urbanplanning.org/ontology#Parcel'')]
        else []),
      methods_for = (\<lambda>u.
        if u = ''http://urbanplanning.org/ontology#Parcel''
        then [''http://urbanplanning.org/ontology#DensityAnalysis'',
              ''http://urbanplanning.org/ontology#BufferAnalysis'']
        else if u = ''http://urbanplanning.org/ontology#TransitStop''
        then [''http://urbanplanning.org/ontology#BufferAnalysis'']
        else [])\<rparr>"

definition overlap_query :: parsed_query where
  "overlap_query =
     \<lparr>original_query = ''Residential density of parcels near transit stops'',
      concepts = [''density'', ''Residential density''], entities = [''parcels'', ''transit stops''],
      filters = [], spatial_relationships = [], intent = ''''\<rparr>"

text \<open>A decoder that knows three JSON texts, and a response that wraps one of them in a
  fenced block.\<close>

definition sufficient_json :: string where
  "sufficient_json =
     ''{'' @ [CHR 0x22] @ ''steps'' @ [CHR 0x22] @ '': [], ''
     @ [CHR 0x22] @ ''data_sufficiency'' @ [CHR 0x22] @ '': ''
     @ [CHR 0x22] @ ''sufficient'' @ [CHR 0x22] @ ''}''"

definition demo_loads :: "string \<Rightarrow> exn + json" where
  "demo_loads s =
     (if s = sufficient_json
      then Inr (JObj [(''steps'', JArr []), (''data_sufficiency'', JStr ''sufficient'')])
      else if s = ''{}'' then Inr (JObj [])
      else if s = ''[]'' then Inr (JArr [])
      else Inl JSONDecodeError)"

definition fenced_response :: string where
  "fenced_response =
     ''Here is the workflow:'' @ [CHR 0x0A] @ ''```json'' @ [CHR 0x0A] @ sufficient_json
     @ [CHR 0x0A] @ ''```'' @ [CHR 0x0A]"

section \<open>Facts about the four scoring loops\<close>

lemma fold_hits:
  "fold (\<lambda>x (s, rs). if P x then (s + k, rs @ [f x]) else (s, rs)) xs (s0 :: int, rs0) =
     (s0 + k * int (length (filter P xs)), rs0 @ map f (filter P xs))"
  by (induction xs arbitrary: s0 rs0) (simp_all add: algebra_simps)

lemma match_concepts_eq:
  "match_concepts cs dm rp (s, rs) =
     (s + 2 * int (length (filter (concept_hit dm rp) cs)),
      rs @ map (\<lambda>c. ''Matches concept: '' @ c) (filter (concept_hit dm rp) cs))"
  unfolding match_concepts_def concept_hit_def
  by (induction cs arbitrary: s rs) simp_all

lemma match_entities_eq:
  "match_entities es rp (s, rs) =
     (s + 2 * int (length (filter (\<lambda>e. str_in e rp) es)),
      rs @ map (\<lambda>e. ''Contains entity: '' @ e) (filter (\<lambda>e. str_in e rp) es))"
  unfolding match_entities_def
  by (induction es arbitrary: s rs) simp_all

lemma match_geometry_eq:
  "match_geometry es g (s, rs) =
     (s + int (length (filter (geometry_hit g) es)),
      rs @ map (\<lambda>e. ''Geometry matches entity type'') (filter (geometry_hit g) es))"
proof -
  have "match_geometry es g (s, rs) =
     fold (\<lambda>e (s, rs). if geometry_hit g e
                        then (s + 1, rs @ [''Geometry matches entity type'']) else (s, rs))
          es (s, rs)"
    unfolding match_geometry_def
    by (rule arg_cong [where f = "\<lambda>h. fold h es (s, rs)"])
       (auto simp: fun_eq_iff geometry_hit_def)
  then show ?thesis by (simp add: fold_hits)
qed

lemma match_tasks_eq:
  "match_tasks cs ts (s, rs) =
     (s + int (length (filter (task_hit cs) ts)),
      rs @ map (\<lambda>t. ''Capable of related task: '' @ t) (filter (task_hit cs) ts))"
  unfolding match_tasks_def task_hit_def
  by (induction ts arbitrary: s rs) simp_all

lemma score_dataset_loops:
  "score_dataset cs es d =
     match_tasks cs (tasks_of d) (match_geometry es (geometry_of d)
       (match_entities es (represents_of d)
         (match_concepts cs (domain_of d) (represents_of d) (0, []))))"
  by (simp add: score_dataset_def Let_def represents_of_def domain_of_def geometry_of_def
      tasks_of_def split: option.splits)

lemma score_dataset_eq:
  "score_dataset cs es d =
     (2 * int (length (filter (concept_hit (domain_of d) (represents_of d)) cs))
      + 2 * int (length (filter (\<lambda>e. str_in e (represents_of d)) es))
      + int (length (filter (geometry_hit (geometry_of d)) es))
      + int (length (filter (task_hit cs) (tasks_of d))),
      map (\<lambda>c. ''Matches concept: '' @ c) (filter (concept_hit (domain_of d) (represents_of d)) cs)
      @ map (\<lambda>e. ''Contains entity: '' @ e) (filter (\<lambda>e. str_in e (represents_of d)) es)
      @ map (\<lambda>e. ''Geometry matches entity type'') (filter (geometry_hit (geometry_of d)) es)
      @ map (\<lambda>t. ''Capable of related task: '' @ t) (filter (task_hit cs) (tasks_of d)))"
  by (simp add: score_dataset_loops match_concepts_eq match_entities_eq match_geometry_eq
      match_tasks_eq)

lemma score_bounds:
  "int (length (snd (score_dataset cs es d))) \<le> fst (score_dataset cs es d)"
  "fst (score_dataset cs es d) \<le> 2 * int (length (snd (score_dataset cs es d)))"
  by (simp_all add: score_dataset_eq)

lemma collect_relevant_eq:
  "collect_relevant cs es ds =
     map (\<lambda>d. \<lparr>dataset = d, relevance_score = fst (score_dataset cs es d),
               reasons = snd (score_dataset cs es d)\<rparr>)
       (filter (\<lambda>d. 0 < fst (score_dataset cs es d)) ds)"
proof -
  have "fold (\<lambda>d relevant_datasets.
             case score_dataset cs es d of (score, rs) \<Rightarrow>
               if score > 0
               then relevant_datasets @ [\<lparr>dataset = d, relevance_score = score, reasons = rs\<rparr>]
               else relevant_datasets) ds acc
        = acc @ map (\<lambda>d. \<lparr>dataset = d, relevance_score = fst (score_dataset cs es d),
                          reasons = snd (score_dataset cs es d)\<rparr>)
                  (filter (\<lambda>d. 0 < fst (score_dataset cs es d)) ds)" for acc
    by (induction ds arbitrary: acc) (simp_all add: split_def)
  then show ?thesis by (simp add: collect_relevant_def)
qed

lemma search_eq:
  "search_knowledge_base kb pq =
     sort_key (\<lambda>x. - relevance_score x)
       (map (\<lambda>d. \<lparr>dataset = d, relevance_score = relevance pq d, reasons = why_relevant pq d\<rparr>)
         (filter (\<lambda>d. 0 < relevance pq d) (datasets kb)))"
  by (simp add: search_knowledge_base_def sort_by_relevance_def collect_relevant_eq
      relevance_def why_relevant_def Let_def)

lemma search_set:
  "set (search_knowledge_base kb pq) =
     (\<lambda>d. \<lparr>dataset = d, relevance_score = relevance pq d, reasons = why_relevant pq d\<rparr>)
       ` {d \<in> set (datasets kb). 0 < relevance pq d}"
  by (simp add: search_eq)

lemma search_datasets_mset:
  "mset (map dataset (search_knowledge_base kb pq)) =
     mset (filter (\<lambda>d. 0 < relevance pq d) (datasets kb))"
proof -
  have "mset (map dataset (search_knowledge_base kb pq))
      = image_mset dataset (mset (search_knowledge_base kb pq))"
    by simp
  also have "\<dots> = mset (filter (\<lambda>d. 0 < relevance pq d) (datasets kb))"
    unfolding search_eq by (simp add: image_mset.compositionality comp_def del: mset_filter)
  finally show ?thesis .
qed

lemma str_in_Nil: "str_in [] s"
  by (induction s) simp_all

section \<open>Ranking keeps exactly the positively scored datasets\<close>

text \<open>
  Claim C1. For every knowledge base and parsed intent, the list returned by
  \<^verbatim>\<open>_search_knowledge_base\<close> is no longer than the knowledge base, its datasets are
  exactly the datasets whose additive score is strictly positive (as a multiset, so a
  dataset listed twice is returned twice), every entry carries the score of its dataset,
  and no entry has score 0.
\<close>

theorem search_exactly_positive:
  "length (search_knowledge_base kb pq) \<le> length (datasets kb)
   \<and> mset (map dataset (search_knowledge_base kb pq))
       = mset (filter (\<lambda>d. 0 < relevance pq d) (datasets kb))
   \<and> (\<forall>r \<in> set (search_knowledge_base kb pq).
         relevance_score r = relevance pq (dataset r) \<and> 0 < relevance_score r)"
proof -
  have "length (search_knowledge_base kb pq)
      = length (filter (\<lambda>d. 0 < relevance pq d) (datasets kb))"
    by (simp add: search_eq)
  then have a: "length (search_knowledge_base kb pq) \<le> length (datasets kb)"
    by simp
  have c: "\<forall>r \<in> set (search_knowledge_base kb pq).
        relevance_score r = relevance pq (dataset r) \<and> 0 < relevance_score r"
    by (auto simp: search_set)
  from a search_datasets_mset [of kb pq] c show ?thesis by blast
qed

theorem search_exactly_positive_witness:
  "\<lparr>dataset = stops_ds, relevance_score = 1, reasons = [''Geometry matches entity type'']\<rparr>
     \<in> set (search_knowledge_base demo_kb demo_query)
   \<and> relevance demo_query stops_ds = 1
   \<and> length (search_knowledge_base demo_kb demo_query) \<le> length (datasets demo_kb)
   \<and> mset (map dataset (search_knowledge_base demo_kb demo_query))
       = mset (filter (\<lambda>d. 0 < relevance demo_query d) (datasets demo_kb))"
proof -
  have m: "\<lparr>dataset = stops_ds, relevance_score = 1, reasons = [''Geometry matches entity type'']\<rparr>
     \<in> set (search_knowledge_base demo_kb demo_query)"
    by code_simp
  with search_exactly_positive [of demo_kb demo_query] show ?thesis
    by fastforce
qed


section \<open>The scenario of the specification\<close>

text \<open>
  Claim C2, as amended. With concepts \<open>[accessibility]\<close>, entities
  \<open>[activity centers]\<close> and the single dataset with domain \<open>accessibility\<close>,
  represents \<open>activity center boundaries\<close> and geometry type \<open>Polygon\<close>, ranking
  returns that dataset with relevance score 2 and one reason: the concept occurs in the
  domain (+2), but the entity \<open>activity centers\<close> is not a substring of
  \<open>activity center boundaries\<close> and adds nothing.
\<close>

theorem scenario_score_is_two:
  "search_knowledge_base \<lparr>datasets = [scenario_dataset]\<rparr> scenario_query =
     [\<lparr>dataset = scenario_dataset, relevance_score = 2,
       reasons = [''Matches concept: accessibility'']\<rparr>]"
  by code_simp

text \<open>Claim C2 as stated (score 4) fails at this input: the list of returned scores is
  not \<open>[4]\<close>.\<close>

theorem scenario_score_not_four:
  "map relevance_score (search_knowledge_base \<lparr>datasets = [scenario_dataset]\<rparr> scenario_query) \<noteq> [4]"
  by code_simp

section \<open>The ranking is sorted and stable\<close>

text \<open>
  Claim C4. The output of \<^verbatim>\<open>_search_knowledge_base\<close> is in descending order of
  relevance score, and for every score \<open>k\<close> the returned datasets with score \<open>k\<close> appear
  in the order in which the knowledge base lists them.
\<close>

theorem search_sorted_stable:
  "sorted_wrt (\<lambda>a b. relevance_score b \<le> relevance_score a) (search_knowledge_base kb pq)
   \<and> (\<forall>k. map dataset (filter (\<lambda>r. relevance_score r = k) (search_knowledge_base kb pq))
           = filter (\<lambda>d. 0 < relevance pq d \<and> relevance pq d = k) (datasets kb))"
proof -
  let ?c = "map (\<lambda>d. \<lparr>dataset = d, relevance_score = relevance pq d, reasons = why_relevant pq d\<rparr>)
         (filter (\<lambda>d. 0 < relevance pq d) (datasets kb))"
  have s: "search_knowledge_base kb pq = sort_key (\<lambda>x. - relevance_score x) ?c"
    by (rule search_eq)
  have "sorted (map (\<lambda>x. - relevance_score x) (search_knowledge_base kb pq))"
    unfolding s by (rule sorted_sort_key)
  then have a: "sorted_wrt (\<lambda>a b. relevance_score b \<le> relevance_score a) (search_knowledge_base kb pq)"
    by (simp add: sorted_map)
  have b: "map dataset (filter (\<lambda>r. relevance_score r = k) (search_knowledge_base kb pq))
         = filter (\<lambda>d. 0 < relevance pq d \<and> relevance pq d = k) (datasets kb)" for k
  proof -
    have "filter (\<lambda>r. relevance_score r = k) (search_knowledge_base kb pq)
        = filter (\<lambda>r. - relevance_score r = - k) (sort_key (\<lambda>x. - relevance_score x) ?c)"
      unfolding s by simp
    also have "\<dots> = filter (\<lambda>r. - relevance_score r = - k) ?c"
      by (rule sort_key_stable)
    finally show ?thesis
      by (simp add: filter_map comp_def conj_commute)
  qed
  from a b show ?thesis by blast
qed

theorem search_sorted_stable_witness:
  "map dataset (search_knowledge_base demo_kb demo_query) = [parcels_ds, stops_ds, stations_ds]
   \<and> map relevance_score (search_knowledge_base demo_kb demo_query) = [6, 1, 1]
   \<and> map dataset (filter (\<lambda>r. relevance_score r = 1) (search_knowledge_base demo_kb demo_query))
       = filter (\<lambda>d. 0 < relevance demo_query d \<and> relevance demo_query d = 1) [notes_ds, stops_ds, parcels_ds, stations_ds]
   \<and> sorted_wrt (\<lambda>a b. relevance_score b \<le> relevance_score a) (search_knowledge_base demo_kb demo_query)"
proof -
  have 1: "map dataset (search_knowledge_base demo_kb demo_query) = [parcels_ds, stops_ds, stations_ds]"
    by code_simp
  have 2: "map relevance_score (search_knowledge_base demo_kb demo_query) = [6, 1, 1]"
    by code_simp
  have 3: "datasets demo_kb = [notes_ds, stops_ds, parcels_ds, stations_ds]"
    by (simp add: demo_kb_def)
  from search_sorted_stable [of demo_kb demo_query] 1 2 3 show ?thesis
    by simp
qed

section \<open>The capable-tasks contribution\<close>

text \<open>
  Claim C8. The capable-tasks loop adds exactly 1 to the score, and appends exactly one
  reason, for each task string in which at least one concept occurs, compared in lower
  case; a task matched by several concepts still counts once. Hence the score of a dataset
  is the score it would have without its tasks plus the number of matching tasks.
\<close>

theorem capable_tasks_one_point_per_task:
  "match_tasks cs tasks (score, rs)
     = (score + int (length (filter (\<lambda>t. \<exists>c \<in> set cs. str_in c (lower t)) tasks)),
        rs @ map (\<lambda>t. ''Capable of related task: '' @ t)
               (filter (\<lambda>t. \<exists>c \<in> set cs. str_in c (lower t)) tasks))
   \<and> relevance pq d
     = relevance pq (d\<lparr>capable_tasks := None\<rparr>)
       + int (length (filter (\<lambda>t. \<exists>c \<in> set (concepts pq). str_in (lower c) (lower t)) (tasks_of d)))
   \<and> why_relevant pq d
     = why_relevant pq (d\<lparr>capable_tasks := None\<rparr>)
       @ map (\<lambda>t. ''Capable of related task: '' @ t)
           (filter (\<lambda>t. \<exists>c \<in> set (concepts pq). str_in (lower c) (lower t)) (tasks_of d))"
proof -
  have h: "task_hit xs = (\<lambda>t. \<exists>c \<in> set xs. str_in c (lower t))" for xs
    by (simp add: task_hit_def list_ex_iff fun_eq_iff)
  have h': "task_hit (map lower xs) = (\<lambda>t. \<exists>c \<in> set xs. str_in (lower c) (lower t))" for xs
    by (simp add: task_hit_def list_ex_iff fun_eq_iff)
  have a: "match_tasks cs tasks (score, rs)
     = (score + int (length (filter (\<lambda>t. \<exists>c \<in> set cs. str_in c (lower t)) tasks)),
        rs @ map (\<lambda>t. ''Capable of related task: '' @ t)
               (filter (\<lambda>t. \<exists>c \<in> set cs. str_in c (lower t)) tasks))"
    by (simp add: match_tasks_eq h)
  have n: "represents_of (d\<lparr>capable_tasks := None\<rparr>) = represents_of d"
    "domain_of (d\<lparr>capable_tasks := None\<rparr>) = domain_of d"
    "geometry_of (d\<lparr>capable_tasks := None\<rparr>) = geometry_of d"
    "tasks_of (d\<lparr>capable_tasks := None\<rparr>) = []"
    by (simp_all add: represents_of_def domain_of_def geometry_of_def tasks_of_def)
  have b: "relevance pq d
     = relevance pq (d\<lparr>capable_tasks := None\<rparr>)
       + int (length (filter (\<lambda>t. \<exists>c \<in> set (concepts pq). str_in (lower c) (lower t)) (tasks_of d)))"
    by (simp add: relevance_def score_dataset_eq n h')
  have c: "why_relevant pq d
     = why_relevant pq (d\<lparr>capable_tasks := None\<rparr>)
       @ map (\<lambda>t. ''Capable of related task: '' @ t)
           (filter (\<lambda>t. \<exists>c \<in> set (concepts pq). str_in (lower c) (lower t)) (tasks_of d))"
    by (simp add: why_relevant_def score_dataset_eq n h')
  from a b c show ?thesis by blast
qed

theorem capable_tasks_one_point_per_task_witness:
  "str_in (lower ''Density'') (lower ''Residential density analysis'')
   \<and> str_in (lower ''residential'') (lower ''Residential density analysis'')
   \<and> relevance demo_query parcels_ds = relevance demo_query (parcels_ds\<lparr>capable_tasks := None\<rparr>) + 1
   \<and> why_relevant demo_query parcels_ds
       = why_relevant demo_query (parcels_ds\<lparr>capable_tasks := None\<rparr>)
         @ [''Capable of related task: Residential density analysis'']"
proof -
  have 1: "str_in (lower ''Density'') (lower ''Residential density analysis'')"
    by code_simp
  have 2: "str_in (lower ''residential'') (lower ''Residential density analysis'')"
    by code_simp
  have 3: "filter (\<lambda>t. \<exists>c \<in> set (concepts demo_query). str_in (lower c) (lower t)) (tasks_of parcels_ds)
             = [''Residential density analysis'']"
    by code_simp
  from capable_tasks_one_point_per_task [of "[]" "[]" 0 "[]" demo_query parcels_ds] 1 2 3
  show ?thesis by simp
qed

section \<open>Reasons and score\<close>

text \<open>
  Claim C9. Every ranked dataset that is returned has a non-empty list of reasons, and
  \<open>length reasons \<le> relevance_score \<le> 2 * length reasons\<close>.
\<close>

theorem reasons_bound_score:
  "\<forall>r \<in> set (search_knowledge_base kb pq).
     reasons r \<noteq> [] \<and> int (length (reasons r)) \<le> relevance_score r
     \<and> relevance_score r \<le> 2 * int (length (reasons r))"
proof
  fix r assume "r \<in> set (search_knowledge_base kb pq)"
  then obtain d where r: "r = \<lparr>dataset = d, relevance_score = relevance pq d, reasons = why_relevant pq d\<rparr>"
    and pos: "0 < relevance pq d"
    by (auto simp: search_set)
  have 1: "int (length (why_relevant pq d)) \<le> relevance pq d"
    and 2: "relevance pq d \<le> 2 * int (length (why_relevant pq d))"
    by (simp_all add: relevance_def why_relevant_def score_bounds)
  from pos 2 have "why_relevant pq d \<noteq> []" by auto
  with 1 2 r show "reasons r \<noteq> [] \<and> int (length (reasons r)) \<le> relevance_score r
   \<and> relevance_score r \<le> 2 * int (length (reasons r))" by simp
qed

theorem reasons_bound_score_witness:
  "\<lparr>dataset = parcels_ds, relevance_score = 6,
     reasons = [''Matches concept: residential'', ''Contains entity: parcels'',
                ''Geometry matches entity type'',
                ''Capable of related task: Residential density analysis'']\<rparr>
     \<in> set (search_knowledge_base demo_kb demo_query)
   \<and> (4::int) \<le> 6 \<and> (6::int) \<le> 2 * 4"
proof -
  have m: "\<lparr>dataset = parcels_ds, relevance_score = 6,
     reasons = [''Matches concept: residential'', ''Contains entity: parcels'',
                ''Geometry matches entity type'',
                ''Capable of related task: Residential density analysis'']\<rparr>
     \<in> set (search_knowledge_base demo_kb demo_query)"
    by code_simp
  from reasons_bound_score [of demo_kb demo_query] m show ?thesis
    by fastforce
qed


section \<open>Facts about the string primitives\<close>

lemma startswith_prefix: "startswith s p = prefix p s"
  by (induction s p rule: startswith.induct) auto

lemma str_in_sublist: "str_in sub s = sublist sub s"
  by (induction s) (simp_all add: sublist_Cons_right startswith_prefix)

lemma split_on_nonempty: "split_on sep s \<noteq> []"
  by (induction sep s rule: split_on.induct) (auto split: list.splits)

lemma split_on_skip:
  "\<not> (sep \<noteq> [] \<and> startswith (c # cs) sep) \<Longrightarrow>
     split_on sep (c # cs) = (c # hd (split_on sep cs)) # tl (split_on sep cs)"
  using split_on_nonempty [of sep cs] by (auto split: list.splits)

lemma split_on_hit:
  "sep \<noteq> [] \<Longrightarrow> split_on sep (sep @ rest) = [] # split_on sep rest"
  by (cases sep) (simp_all add: startswith_prefix)

lemma split_on_pieces:
  "prefix (hd (split_on sep s)) s \<and> (\<forall>p \<in> set (tl (split_on sep s)). sublist p s)"
proof (induction sep s rule: split_on.induct)
  case (1 sep)
  show ?case by simp
next
  case (2 sep c cs)
  show ?case
  proof (cases "sep \<noteq> [] \<and> startswith (c # cs) sep")
    case True
    let ?r = "drop (length sep) (c # cs)"
    have eq: "split_on sep (c # cs) = [] # split_on sep ?r"
      using True by simp
    have ih: "prefix (hd (split_on sep ?r)) ?r \<and> (\<forall>p \<in> set (tl (split_on sep ?r)). sublist p ?r)"
      using 2(1) True by simp
    have "\<forall>p \<in> set (split_on sep ?r). sublist p ?r"
    proof
      fix p assume "p \<in> set (split_on sep ?r)"
      then have "p = hd (split_on sep ?r) \<or> p \<in> set (tl (split_on sep ?r))"
        by (cases "split_on sep ?r") auto
      with ih show "sublist p ?r" by auto
    qed
    moreover have "sublist ?r (c # cs)" by (rule sublist_drop)
    ultimately have "\<forall>p \<in> set (split_on sep ?r). sublist p (c # cs)"
      by (blast intro: sublist_order.order_trans)
    with eq show ?thesis by simp
  next
    case False
    have eq: "split_on sep (c # cs) = (c # hd (split_on sep cs)) # tl (split_on sep cs)"
      using False by (rule split_on_skip)
    have ih: "prefix (hd (split_on sep cs)) cs \<and> (\<forall>p \<in> set (tl (split_on sep cs)). sublist p cs)"
      using 2(2) False by simp
    have "sublist cs (c # cs)" by (simp add: sublist_Cons_right)
    with ih have "\<forall>p \<in> set (tl (split_on sep cs)). sublist p (c # cs)"
      by (blast intro: sublist_order.order_trans)
    with ih eq show ?thesis by simp
  qed
qed

lemma split_on_sublist: "p \<in> set (split_on sep s) \<Longrightarrow> sublist p s"
proof -
  assume "p \<in> set (split_on sep s)"
  then have "p = hd (split_on sep s) \<or> p \<in> set (tl (split_on sep s))"
    using split_on_nonempty [of sep s] by (cases "split_on sep s") auto
  with split_on_pieces [of sep s] show ?thesis
    by auto
qed

lemma strip_sublist: "sublist (strip s) s"
proof -
  have "sublist (rev (dropWhile isspace (rev (dropWhile isspace s)))) (dropWhile isspace s)"
    by (metis sublist_dropWhile sublist_rev_left)
  then show ?thesis
    unfolding strip_def using sublist_dropWhile sublist_order.order_trans by blast
qed

lemma split_on_before:
  "c \<notin> set pre \<Longrightarrow>
     split_on (c # sep) (pre @ s)
       = (pre @ hd (split_on (c # sep) s)) # tl (split_on (c # sep) s)"
proof (induction pre)
  case Nil
  show ?case using split_on_nonempty [of "c # sep" s] by simp
next
  case (Cons x pre)
  then have "\<not> (c # sep \<noteq> [] \<and> startswith (x # pre @ s) (c # sep))" by auto
  then have "split_on (c # sep) (x # pre @ s)
     = (x # hd (split_on (c # sep) (pre @ s))) # tl (split_on (c # sep) (pre @ s))"
    by (rule split_on_skip)
  with Cons show ?case by simp
qed

lemma split_on_absent: "c \<notin> set s \<Longrightarrow> split_on (c # sep) s = [s]"
  using split_on_before [of c s sep "[]"] by simp

section \<open>Parsing a response\<close>

lemma startswith_marker_str_in:
  assumes "startswith (strip l) (m @ '':'')" and "sublist l content"
  shows "str_in m content"
proof -
  have "prefix (m @ '':'') (strip l)" using assms(1) by (simp add: startswith_prefix)
  then have "prefix m (strip l)" using append_prefixD by blast
  then have "sublist m (strip l)" by (rule prefix_imp_sublist)
  then have "sublist m l" using strip_sublist sublist_order.order_trans by blast
  then have "sublist m content" using assms(2) sublist_order.order_trans by blast
  then show ?thesis by (simp add: str_in_sublist)
qed

lemma parse_line_marker_free:
  assumes "marker_free content" and "sublist l content"
  shows "parse_line p l = Inr p"
proof -
  have "\<not> startswith (strip l) ''CONCEPTS:''"
    using startswith_marker_str_in [of l "''CONCEPTS''" content] assms by (auto simp: marker_free_def)
  moreover have "\<not> startswith (strip l) ''ENTITIES:''"
    using startswith_marker_str_in [of l "''ENTITIES''" content] assms by (auto simp: marker_free_def)
  moreover have "\<not> startswith (strip l) ''FILTERS:''"
    using startswith_marker_str_in [of l "''FILTERS''" content] assms by (auto simp: marker_free_def)
  moreover have "\<not> startswith (strip l) ''SPATIAL:''"
    using startswith_marker_str_in [of l "''SPATIAL''" content] assms by (auto simp: marker_free_def)
  moreover have "\<not> startswith (strip l) ''INTENT:''"
    using startswith_marker_str_in [of l "''INTENT''" content] assms by (auto simp: marker_free_def)
  ultimately show ?thesis
    by (simp add: parse_line_def Let_def)
qed

lemma parse_lines_marker_free:
  "marker_free content \<Longrightarrow> \<forall>l \<in> set ls. sublist l content \<Longrightarrow> parse_lines p ls = Inr p"
  by (induction ls) (simp_all add: parse_line_marker_free bind_exn_def)

lemma parse_response_marker_free:
  "marker_free content \<Longrightarrow> parse_response q content = Inr (empty_parse q)"
  by (simp add: parse_response_def py_split_def bind_exn_def parse_lines_marker_free split_on_sublist)

text \<open>The body of the \<^verbatim>\<open>try\<close> block never raises: after a successful
  \<^verbatim>\<open>startswith\<close>, index 1 of the split is in range.\<close>

lemma after_marker_ok:
  assumes "startswith l m" and "m \<noteq> []"
  shows "\<exists>rest. after_marker l m = Inr rest"
proof -
  from assms(1) obtain r where l: "l = m @ r"
    by (auto simp: startswith_prefix prefix_def)
  have "split_on m l = [] # split_on m r"
    unfolding l using assms(2) by (rule split_on_hit)
  moreover have "split_on m r \<noteq> []" by (rule split_on_nonempty)
  ultimately have "1 < length (split_on m l)"
    by (cases "split_on m r") simp_all
  then show ?thesis
    using assms(2) by (simp add: after_marker_def py_split_def bind_exn_def index_def)
qed

lemma comma_items_ok: "\<exists>items. comma_items rest = Inr items"
  by (simp add: comma_items_def py_split_def bind_exn_def)

lemma parse_line_ok: "\<exists>p'. parse_line p l = Inr p'"
proof -
  have a: "startswith (strip l) m \<Longrightarrow> m \<noteq> [] \<Longrightarrow> \<exists>rest. after_marker (strip l) m = Inr rest" for m
    by (rule after_marker_ok)
  show ?thesis
    unfolding parse_line_def Let_def
    using a [of "''CONCEPTS:''"] a [of "''ENTITIES:''"] a [of "''FILTERS:''"]
      a [of "''SPATIAL:''"] a [of "''INTENT:''"]
      comma_items_ok
    by (auto simp: bind_exn_def comma_items_def py_split_def)
qed

lemma parse_lines_ok: "\<exists>p'. parse_lines p ls = Inr p'"
proof (induction ls arbitrary: p)
  case Nil
  show ?case by simp
next
  case (Cons l ls)
  obtain p1 where "parse_line p l = Inr p1" using parse_line_ok by blast
  with Cons [of p1] show ?case by (simp add: bind_exn_def)
qed

lemma parse_response_ok: "\<exists>p. parse_response q content = Inr p"
  by (simp add: parse_response_def py_split_def bind_exn_def parse_lines_ok)


text \<open>
  Claim C3, as amended. If the text-generation call raises, \<^verbatim>\<open>_parse_query\<close> returns
  the degraded intent: all four lists empty and \<open>intent\<close> the raw query. If the call
  succeeds and the response contains none of the five marker words, the four lists are
  empty as well, but \<open>intent\<close> is the empty string, the default of a field whose marker
  is missing. Parsing a response never raises, so the handler is reached only through a
  failure of the call, and \<^verbatim>\<open>_parse_query\<close> always returns.
\<close>

theorem parse_query_degraded:
  "parse_query q (Inl e) =
     \<lparr>original_query = q, concepts = [], entities = [], filters = [],
      spatial_relationships = [], intent = q\<rparr>
   \<and> (\<not> str_in ''CONCEPTS'' content \<and> \<not> str_in ''ENTITIES'' content
      \<and> \<not> str_in ''FILTERS'' content \<and> \<not> str_in ''SPATIAL'' content
      \<and> \<not> str_in ''INTENT'' content
      \<longrightarrow> parse_query q (Inr content) =
            \<lparr>original_query = q, concepts = [], entities = [], filters = [],
             spatial_relationships = [], intent = []\<rparr>)
   \<and> (\<exists>p. parse_response q content = Inr p \<and> parse_query q (Inr content) = p)"
proof -
  have a: "parse_query q (Inl e) =
     \<lparr>original_query = q, concepts = [], entities = [], filters = [],
      spatial_relationships = [], intent = q\<rparr>"
    by (simp add: parse_query_def bind_exn_def degraded_parse_def)
  have b: "parse_query q (Inr content) =
            \<lparr>original_query = q, concepts = [], entities = [], filters = [],
             spatial_relationships = [], intent = []\<rparr>"
    if "marker_free content"
    using that by (simp add: parse_query_def bind_exn_def parse_response_marker_free empty_parse_def)
  obtain p where p: "parse_response q content = Inr p" using parse_response_ok by blast
  then have c: "\<exists>p. parse_response q content = Inr p \<and> parse_query q (Inr content) = p"
    by (simp add: parse_query_def bind_exn_def)
  from a b c show ?thesis unfolding marker_free_def by blast
qed



theorem parse_query_degraded_witness:
  "\<not> str_in ''CONCEPTS'' ''I am unable to help.'' \<and> \<not> str_in ''ENTITIES'' ''I am unable to help.''
   \<and> \<not> str_in ''FILTERS'' ''I am unable to help.'' \<and> \<not> str_in ''SPATIAL'' ''I am unable to help.''
   \<and> \<not> str_in ''INTENT'' ''I am unable to help.''
   \<and> parse_query ''density near transit'' (Inr ''I am unable to help.'') =
            \<lparr>original_query = ''density near transit'', concepts = [], entities = [], filters = [],
             spatial_relationships = [], intent = []\<rparr>
   \<and> parse_query ''density near transit'' (Inl ServiceError) =
            \<lparr>original_query = ''density near transit'', concepts = [], entities = [], filters = [],
             spatial_relationships = [], intent = ''density near transit''\<rparr>"
proof -
  have h: "\<not> str_in ''CONCEPTS'' ''I am unable to help.'' \<and> \<not> str_in ''ENTITIES'' ''I am unable to help.''
   \<and> \<not> str_in ''FILTERS'' ''I am unable to help.'' \<and> \<not> str_in ''SPATIAL'' ''I am unable to help.''
   \<and> \<not> str_in ''INTENT'' ''I am unable to help.''"
    by code_simp
  from parse_query_degraded [of "''density near transit''" ServiceError "''I am unable to help.''"] h
  show ?thesis by blast
qed

text \<open>Claim C3 as stated fails on a response without markers: the intent returned is
  not the raw query.\<close>

theorem no_marker_intent_empty:
  "intent (parse_query ''density near transit'' (Inr ''I am unable to help.'')) \<noteq> ''density near transit''"
  by code_simp


section \<open>An empty concept matches every dataset\<close>

lemma dropWhile_all: "\<forall>c \<in> set w. P c \<Longrightarrow> dropWhile P w = []"
  by (induction w) simp_all

lemma strip_blank: "\<forall>c \<in> set w. isspace c \<Longrightarrow> strip w = []"
  by (simp add: strip_def dropWhile_all)

lemma strip_keep:
  assumes "s \<noteq> []" and "\<not> isspace (hd s)" and "\<not> isspace (last s)"
    and "\<forall>c \<in> set w. isspace c"
  shows "strip (s @ w) = s"
proof -
  have 1: "dropWhile isspace (s @ w) = s @ w"
    using assms(1,2) by (cases s) simp_all
  have 2: "dropWhile isspace (rev w @ rev s) = dropWhile isspace (rev s)"
    using assms(4) by (intro dropWhile_append2) simp
  have "\<not> isspace (hd (rev s))"
    using assms(1,3) by (simp add: hd_rev)
  then have 3: "dropWhile isspace (rev s) = rev s"
    using assms(1) by (cases "rev s") simp_all
  show ?thesis by (simp add: strip_def 1 2 3)
qed

lemma parse_line_blank:
  assumes "\<forall>c \<in> set w. isspace c"
  shows "parse_line p w = Inr p"
  by (simp add: parse_line_def strip_blank [OF assms])

lemma parse_lines_blank:
  "\<forall>l \<in> set ls. \<forall>c \<in> set l. isspace c \<Longrightarrow> parse_lines p ls = Inr p"
  by (induction ls) (simp_all add: parse_line_blank bind_exn_def)

lemma after_marker_self: "m \<noteq> [] \<Longrightarrow> after_marker m m = Inr []"
  using split_on_hit [of m "[]"]
  by (simp add: after_marker_def py_split_def bind_exn_def index_def)

lemma parse_line_concepts_blank:
  assumes "\<forall>c \<in> set w. isspace c"
  shows "parse_line p (''CONCEPTS:'' @ w) = Inr (p\<lparr>concepts := [[]]\<rparr>)"
proof -
  have s: "strip (''CONCEPTS:'' @ w) = ''CONCEPTS:''"
    using assms by (intro strip_keep) (simp_all add: isspace_def)
  have a: "after_marker ''CONCEPTS:'' ''CONCEPTS:'' = Inr []"
    by (rule after_marker_self) simp
  have c: "comma_items [] = Inr [[]]"
    by (simp add: comma_items_def py_split_def bind_exn_def strip_def)
  show ?thesis
    unfolding parse_line_def Let_def s by (simp add: a c bind_exn_def)
qed

lemma sublist_set: "sublist p s \<Longrightarrow> set p \<subseteq> set s"
  by (auto simp: sublist_def)

lemma parse_concepts_blank:
  assumes "\<forall>c \<in> set ws. isspace c"
  shows "parse_query q (Inr (''CONCEPTS:'' @ ws)) = (empty_parse q)\<lparr>concepts := [[]]\<rparr>"
proof -
  let ?nl = "CHR 0x0A"
  let ?ps = "split_on [?nl] ws"
  have blank: "\<forall>c \<in> set l. isspace c" if "l \<in> set ?ps" for l
    using split_on_sublist [OF that] assms sublist_set by blast
  have ne: "?ps \<noteq> []" by (rule split_on_nonempty)
  then have hd_in: "hd ?ps \<in> set ?ps" and tl_in: "set (tl ?ps) \<subseteq> set ?ps"
    by (simp_all add: list.set_sel(2) subsetI)
  have "?nl \<notin> set ''CONCEPTS:''" by simp
  then have sp: "split_on [?nl] (''CONCEPTS:'' @ ws) = (''CONCEPTS:'' @ hd ?ps) # tl ?ps"
    by (rule split_on_before)
  have 1: "parse_line (empty_parse q) (''CONCEPTS:'' @ hd ?ps) = Inr ((empty_parse q)\<lparr>concepts := [[]]\<rparr>)"
    using blank [OF hd_in] by (rule parse_line_concepts_blank)
  have 2: "parse_lines ((empty_parse q)\<lparr>concepts := [[]]\<rparr>) (tl ?ps) = Inr ((empty_parse q)\<lparr>concepts := [[]]\<rparr>)"
    using blank tl_in by (intro parse_lines_blank) blast
  have "parse_response q (''CONCEPTS:'' @ ws) = Inr ((empty_parse q)\<lparr>concepts := [[]]\<rparr>)"
    unfolding parse_response_def py_split_def sp
    using 1 2 by (simp add: bind_exn_def)
  then show ?thesis by (simp add: parse_query_def bind_exn_def)
qed

lemma lower_Nil: "lower [] = []"
  by (simp add: lower_def)

lemma relevance_empty_concept:
  assumes "[] \<in> set (concepts pq)"
  shows "2 \<le> relevance pq d"
proof -
  let ?hits = "filter (concept_hit (domain_of d) (represents_of d)) (map lower (concepts pq))"
  have "lower [] \<in> lower ` set (concepts pq)"
    using assms by (rule imageI)
  then have "[] \<in> set (map lower (concepts pq))"
    by (simp add: lower_Nil)
  moreover have "concept_hit (domain_of d) (represents_of d) []"
    by (simp add: concept_hit_def str_in_Nil)
  ultimately have "[] \<in> set ?hits"
    by simp
  then have "0 < length ?hits"
    by (rule length_pos_if_in_set)
  then have "2 \<le> 2 * int (length ?hits)"
    by linarith
  moreover have "relevance pq d =
      2 * int (length ?hits)
      + 2 * int (length (filter (\<lambda>e. str_in e (represents_of d)) (map lower (entities pq))))
      + int (length (filter (geometry_hit (geometry_of d)) (map lower (entities pq))))
      + int (length (filter (task_hit (map lower (concepts pq))) (tasks_of d)))"
    by (simp only: relevance_def score_dataset_eq fst_conv)
  ultimately show ?thesis
    by linarith
qed


text \<open>
  Claim C10. A response line \<^verbatim>\<open>CONCEPTS:\<close> followed only by whitespace makes
  \<^verbatim>\<open>_parse_query\<close> return a single concept, the empty string. Whenever the empty
  string is among the concepts, every dataset scores at least 2, so the ranking returns
  every dataset of the knowledge base.
\<close>

theorem empty_concept_matches_everything:
  "((\<forall>c \<in> set ws. isspace c) \<longrightarrow>
      concepts (parse_query q (Inr (''CONCEPTS:'' @ ws))) = [''''])
   \<and> ('''' \<in> set (concepts pq) \<longrightarrow>
        (\<forall>d \<in> set (datasets kb). 2 \<le> relevance pq d)
        \<and> mset (map dataset (search_knowledge_base kb pq)) = mset (datasets kb)
        \<and> length (search_knowledge_base kb pq) = length (datasets kb))"
proof -
  have a: "concepts (parse_query q (Inr (''CONCEPTS:'' @ ws))) = ['''']"
    if "\<forall>c \<in> set ws. isspace c"
    using parse_concepts_blank [OF that] by simp
  have b: "(\<forall>d \<in> set (datasets kb). 2 \<le> relevance pq d)
        \<and> mset (map dataset (search_knowledge_base kb pq)) = mset (datasets kb)
        \<and> length (search_knowledge_base kb pq) = length (datasets kb)"
    if h: "'''' \<in> set (concepts pq)"
  proof -
    have r: "2 \<le> relevance pq d" for d
      using h by (rule relevance_empty_concept)
    then have pos: "0 < relevance pq d" for d
      using r [of d] by linarith
    have m: "mset (map dataset (search_knowledge_base kb pq)) = mset (datasets kb)"
      unfolding search_datasets_mset by (simp add: pos)
    have "length (search_knowledge_base kb pq) = length (datasets kb)"
      using arg_cong [OF m, of size] by simp
    with r m show ?thesis by blast
  qed
  from a b show ?thesis by blast
qed

theorem empty_concept_matches_everything_witness:
  "isspace (CHR '' '')
   \<and> concepts (parse_query ''anything'' (Inr (''CONCEPTS:'' @ '' ''))) = ['''']
   \<and> '''' \<in> set (concepts (parse_query ''anything'' (Inr (''CONCEPTS:'' @ '' ''))))
   \<and> notes_ds \<in> set (datasets demo_kb)
   \<and> 2 \<le> relevance (parse_query ''anything'' (Inr (''CONCEPTS:'' @ '' ''))) notes_ds
   \<and> length (search_knowledge_base demo_kb (parse_query ''anything'' (Inr (''CONCEPTS:'' @ '' '')))) = 4"
proof -
  have 1: "\<forall>c \<in> set '' ''. isspace c" by (simp add: isspace_def)
  have 2: "notes_ds \<in> set (datasets demo_kb)" by (simp add: demo_kb_def)
  have 3: "length (datasets demo_kb) = 4" by (simp add: demo_kb_def)
  have 5: "isspace (CHR '' '')" by (simp add: isspace_def)
  from empty_concept_matches_everything
         [of "'' ''" "''anything''" "parse_query ''anything'' (Inr (''CONCEPTS:'' @ '' ''))" demo_kb] 1
  have c: "concepts (parse_query ''anything'' (Inr (''CONCEPTS:'' @ '' ''))) = ['''']"
    by blast
  then have 4: "'''' \<in> set (concepts (parse_query ''anything'' (Inr (''CONCEPTS:'' @ '' ''))))"
    by simp
  from empty_concept_matches_everything
         [of "'' ''" "''anything''" "parse_query ''anything'' (Inr (''CONCEPTS:'' @ '' ''))" demo_kb]
       2 3 4 5 c
  show ?thesis by auto
qed


section \<open>Ontology activation keeps duplicates, except for methods\<close>

lemma fold_append_field_concepts:
  "fold (\<lambda>c ctx. ctx\<lparr>relevant_concepts := relevant_concepts ctx @ f c\<rparr>) cs ctx
     = ctx\<lparr>relevant_concepts := relevant_concepts ctx @ concat (map f cs)\<rparr>"
  by (induction cs arbitrary: ctx) simp_all

lemma fold_append_field_entities:
  "fold (\<lambda>c ctx. ctx\<lparr>relevant_entities := relevant_entities ctx @ f c\<rparr>) cs ctx
     = ctx\<lparr>relevant_entities := relevant_entities ctx @ concat (map f cs)\<rparr>"
  by (induction cs arbitrary: ctx) simp_all

lemma add_relationships_eq:
  "add_relationships onto u ctx =
     ctx\<lparr>relationships := relationships ctx @
          map (\<lambda>(r, t). \<lparr>rel_subject = u, rel_predicate = r, rel_object = t\<rparr>) (outgoing onto u)\<rparr>"
proof -
  have "fold (\<lambda>(relation, target) ctx.
             ctx\<lparr>relationships := relationships ctx @
                   [\<lparr>rel_subject = u, rel_predicate = relation, rel_object = target\<rparr>]\<rparr>) rows ctx
      = ctx\<lparr>relationships := relationships ctx @
          map (\<lambda>(r, t). \<lparr>rel_subject = u, rel_predicate = r, rel_object = t\<rparr>) rows\<rparr>" for rows
    by (induction rows arbitrary: ctx) (simp_all add: split_def)
  then show ?thesis by (simp add: add_relationships_def)
qed

lemma fold_add_relationships:
  "fold (add_relationships onto) us ctx =
     ctx\<lparr>relationships := relationships ctx @
          concat (map (\<lambda>u. map (\<lambda>(r, t). \<lparr>rel_subject = u, rel_predicate = r, rel_object = t\<rparr>)
                              (outgoing onto u)) us)\<rparr>"
  by (induction us arbitrary: ctx) (simp_all add: add_relationships_eq)

lemma remdups_drop_repeat: "x \<in> set zs \<Longrightarrow> remdups (ys @ x # zs) = remdups (ys @ zs)"
  by (induction ys) auto

lemma fold_append_new:
  "distinct acc \<Longrightarrow> fold append_new xs acc = rev (remdups (rev (acc @ xs)))"
proof (induction xs arbitrary: acc)
  case Nil
  then show ?case by (simp add: distinct_remdups_id)
next
  case (Cons x xs)
  show ?case
  proof (cases "x \<in> set acc")
    case True
    then have "remdups (rev xs @ x # rev acc) = remdups (rev xs @ rev acc)"
      by (intro remdups_drop_repeat) simp
    with True Cons show ?thesis by (simp add: append_new_def)
  next
    case False
    with Cons.prems have "distinct (acc @ [x])" by simp
    from Cons.IH [OF this] False show ?thesis by (simp add: append_new_def)
  qed
qed

lemma add_methods_eq:
  "add_methods onto u ctx =
     ctx\<lparr>relevant_methods := fold append_new (map local_name (methods_for onto u)) (relevant_methods ctx)\<rparr>"
proof -
  have "fold (\<lambda>m ctx.
             let method_name = local_name m in
             if method_name \<notin> set (relevant_methods ctx)
             then ctx\<lparr>relevant_methods := relevant_methods ctx @ [method_name]\<rparr>
             else ctx) ms ctx
     = ctx\<lparr>relevant_methods := fold append_new (map local_name ms) (relevant_methods ctx)\<rparr>" for ms
    by (induction ms arbitrary: ctx) (simp_all add: append_new_def Let_def)
  then show ?thesis by (simp add: add_methods_def)
qed

lemma fold_add_methods:
  "fold (add_methods onto) us ctx =
     ctx\<lparr>relevant_methods :=
          fold append_new (concat (map (\<lambda>u. map local_name (methods_for onto u)) us))
            (relevant_methods ctx)\<rparr>"
  by (induction us arbitrary: ctx) (simp_all add: add_methods_eq)

text \<open>
  Claim C5. \<^verbatim>\<open>_activate_ontology\<close> appends the matches of every concept and of every
  entity in order, without de-duplication: \<open>relevant_concepts\<close> and
  \<open>relevant_entities\<close> are the concatenations of the match lists, so a node matched by
  two query terms occurs twice, and \<open>relationships\<close> lists the outgoing relations of
  every occurrence of a concept again. \<open>relevant_methods\<close> has no duplicates: it is the
  list of local names of the methods of all matched entities, each name kept at its first
  occurrence only (\<^const>\<open>remdups\<close> keeps last occurrences, hence the two reversals).
\<close>

theorem activation_duplicates:
  "relevant_concepts (activate_ontology onto pq)
     = concat (map (\<lambda>c. fuzzy_match_ontology_term onto c ''PlanningConcept'') (concepts pq))
   \<and> relevant_entities (activate_ontology onto pq)
     = concat (map (\<lambda>e. fuzzy_match_ontology_term onto e ''UrbanEntity'') (entities pq))
   \<and> relationships (activate_ontology onto pq)
     = concat (map (\<lambda>u. map (\<lambda>(r, t). \<lparr>rel_subject = u, rel_predicate = r, rel_object = t\<rparr>)
                            (outgoing onto u))
                (relevant_concepts (activate_ontology onto pq)))
   \<and> distinct (relevant_methods (activate_ontology onto pq))
   \<and> relevant_methods (activate_ontology onto pq)
     = rev (remdups (rev (concat (map (\<lambda>u. map local_name (methods_for onto u))
                                    (relevant_entities (activate_ontology onto pq))))))"
  by (simp add: activate_ontology_def Let_def fold_append_field_concepts fold_append_field_entities
      fold_add_relationships fold_add_methods fold_append_new)

theorem activation_duplicates_witness:
  "relevant_concepts (activate_ontology demo_ontology overlap_query)
     = [''http://urbanplanning.org/ontology#Density'',
        ''http://urbanplanning.org/ontology#ResidentialDensity'',
        ''http://urbanplanning.org/ontology#Density'',
        ''http://urbanplanning.org/ontology#ResidentialDensity'']
   \<and> length (relationships (activate_ontology demo_ontology overlap_query)) = 2
   \<and> relevant_methods (activate_ontology demo_ontology overlap_query)
     = [''DensityAnalysis'', ''BufferAnalysis'']"
proof -
  have 1: "concat (map (\<lambda>c. fuzzy_match_ontology_term demo_ontology c ''PlanningConcept'')
                   (concepts overlap_query))
     = [''http://urbanplanning.org/ontology#Density'',
        ''http://urbanplanning.org/ontology#ResidentialDensity'',
        ''http://urbanplanning.org/ontology#Density'',
        ''http://urbanplanning.org/ontology#ResidentialDensity'']"
    by code_simp
  have 2: "concat (map (\<lambda>e. fuzzy_match_ontology_term demo_ontology e ''UrbanEntity'')
                   (entities overlap_query))
     = [''http://urbanplanning.org/ontology#Parcel'',
        ''http://urbanplanning.org/ontology#TransitStop'']"
    by code_simp
  have 3: "length (concat (map (\<lambda>u. map (\<lambda>(r, t). \<lparr>rel_subject = u, rel_predicate = r, rel_object = t\<rparr>)
                            (outgoing demo_ontology u))
       [''http://urbanplanning.org/ontology#Density'',
        ''http://urbanplanning.org/ontology#ResidentialDensity'',
        ''http://urbanplanning.org/ontology#Density'',
        ''http://urbanplanning.org/ontology#ResidentialDensity''])) = 2"
    by code_simp
  have 4: "rev (remdups (rev (concat (map (\<lambda>u. map local_name (methods_for demo_ontology u))
       [''http://urbanplanning.org/ontology#Parcel'',
        ''http://urbanplanning.org/ontology#TransitStop'']))))
     = [''DensityAnalysis'', ''BufferAnalysis'']"
    by code_simp
  from activation_duplicates [of demo_ontology overlap_query] 1 2 3 4
  show ?thesis by simp
qed

section \<open>Fence stripping and the fallback workflow\<close>

lemma split_on_found:
  "sep \<noteq> [] \<Longrightarrow> str_in sep s \<Longrightarrow> 1 < length (split_on sep s)"
proof (induction sep s rule: split_on.induct)
  case (1 sep)
  then show ?case by simp
next
  case (2 sep c cs)
  show ?case
  proof (cases "startswith (c # cs) sep")
    case True
    with 2(3) have "split_on sep (c # cs) = [] # split_on sep (drop (length sep) (c # cs))"
      by simp
    then show ?thesis
      using split_on_nonempty [of sep "drop (length sep) (c # cs)"]
      by (cases "split_on sep (drop (length sep) (c # cs))") simp_all
  next
    case False
    with 2(4) have "str_in sep cs" by simp
    with 2(2,3) False have "1 < length (split_on sep cs)" by simp
    moreover have "split_on sep (c # cs) = (c # hd (split_on sep cs)) # tl (split_on sep cs)"
      using False by (intro split_on_skip) simp
    ultimately show ?thesis by simp
  qed
qed

lemma fenced_ok:
  assumes "sep \<noteq> []" and "str_in sep content"
  shows "\<exists>cleaned. bind_exn (py_split content sep) (\<lambda>parts.
        bind_exn (index parts 1) (\<lambda>inner.
        bind_exn (py_split inner ''```'') (\<lambda>parts2.
        bind_exn (index parts2 0) (\<lambda>body. Inr (strip body))))) = Inr cleaned"
proof -
  have 1: "1 < length (split_on sep content)"
    using assms by (rule split_on_found)
  have 2: "0 < length (split_on ''```'' inner)" for inner
    using split_on_nonempty [of "''```''" inner] by simp
  show ?thesis
    using assms(1) 1 2 by (simp add: py_split_def bind_exn_def index_def)
qed

lemma extract_json_ok: "\<exists>cleaned. extract_json content = Inr cleaned"
proof (cases "str_in ''```json'' content")
  case True
  then show ?thesis
    unfolding extract_json_def using fenced_ok [of "''```json''" content] by simp
next
  case False
  note nj = this
  show ?thesis
  proof (cases "str_in ''```'' content")
    case True
    then show ?thesis
      unfolding extract_json_def using nj fenced_ok [of "''```''" content] by simp
  next
    case False
    with nj show ?thesis by (simp add: extract_json_def)
  qed
qed

lemma split_on_fence_open:
  assumes "c \<notin> set pre"
  shows "split_on (c # sep) (pre @ (c # sep) @ rest) = pre # split_on (c # sep) rest"
proof -
  have "split_on (c # sep) ((c # sep) @ rest) = [] # split_on (c # sep) rest"
    by (rule split_on_hit) simp
  with split_on_before [OF assms, of sep "(c # sep) @ rest"] show ?thesis by simp
qed

lemma close_fence:
  assumes "\<not> startswith post ''`''"
  shows "hd (split_on ''```'' (hd (split_on ''```json'' (''```'' @ post)))) = []"
proof (cases "startswith post ''json''")
  case True
  then obtain r where "post = ''json'' @ r"
    by (auto simp: startswith_prefix prefix_def)
  then have "''```'' @ post = ''```json'' @ r" by simp
  then have "split_on ''```json'' (''```'' @ post) = [] # split_on ''```json'' r"
    using split_on_hit [of "''```json''" r] by simp
  then show ?thesis by simp
next
  case False
  have n: "\<not> startswith (x # post) (CHR ''`'' # s)" if "s \<noteq> []" "hd s = CHR ''`''" for x s
    using assms that by (cases s; cases post) auto
  have 1: "split_on ''```json'' (CHR ''`'' # post)
         = (CHR ''`'' # hd (split_on ''```json'' post)) # tl (split_on ''```json'' post)"
    using assms by (intro split_on_skip) (cases post, auto)
  have 2: "split_on ''```json'' (CHR ''`'' # CHR ''`'' # post)
         = (CHR ''`'' # hd (split_on ''```json'' (CHR ''`'' # post))) # tl (split_on ''```json'' (CHR ''`'' # post))"
    using assms by (intro split_on_skip) (cases post, auto)
  have 3: "split_on ''```json'' (CHR ''`'' # CHR ''`'' # CHR ''`'' # post)
         = (CHR ''`'' # hd (split_on ''```json'' (CHR ''`'' # CHR ''`'' # post)))
           # tl (split_on ''```json'' (CHR ''`'' # CHR ''`'' # post))"
    using False by (intro split_on_skip) auto
  have "hd (split_on ''```json'' (''```'' @ post)) = ''```'' @ hd (split_on ''```json'' post)"
    using 1 2 3 by simp
  moreover have "split_on ''```'' (''```'' @ q) = [] # split_on ''```'' q" for q
    by (rule split_on_hit) simp
  ultimately show ?thesis by simp
qed

lemma extract_json_fence:
  assumes "CHR ''`'' \<notin> set pre" and "CHR ''`'' \<notin> set body" and "\<not> startswith post ''`''"
  shows "extract_json (pre @ ''```json'' @ body @ ''```'' @ post) = Inr (strip body)"
proof -
  let ?rest = "body @ ''```'' @ post"
  let ?p = "hd (split_on ''```json'' (''```'' @ post))"
  have c: "str_in ''```json'' (pre @ ''```json'' @ ?rest)"
    unfolding str_in_sublist by (rule sublist_appendI)
  have 1: "split_on ''```json'' (pre @ ''```json'' @ ?rest) = pre # split_on ''```json'' ?rest"
    using split_on_fence_open [OF assms(1), of "''``json''" ?rest] by simp
  have 2: "split_on ''```json'' ?rest = (body @ ?p) # tl (split_on ''```json'' (''```'' @ post))"
    using split_on_before [OF assms(2), of "''``json''" "''```'' @ post"] by simp
  have 3: "split_on ''```'' (body @ ?p) = (body @ hd (split_on ''```'' ?p)) # tl (split_on ''```'' ?p)"
    using split_on_before [OF assms(2), of "''``''" ?p] by simp
  have 4: "hd (split_on ''```'' ?p) = []"
    using assms(3) by (rule close_fence)
  have "bind_exn (py_split (pre @ ''```json'' @ ?rest) ''```json'') (\<lambda>parts.
        bind_exn (index parts 1) (\<lambda>inner.
        bind_exn (py_split inner ''```'') (\<lambda>parts2.
        bind_exn (index parts2 0) (\<lambda>body. Inr (strip body))))) = Inr (strip body)"
    unfolding py_split_def by (simp add: 1 2 3 4 bind_exn_def index_def del: split_on.simps append.simps)
  with c show ?thesis
    unfolding extract_json_def by (simp del: split_on.simps str_in.simps append.simps)
qed

lemma extract_json_plain_fence:
  assumes "CHR ''`'' \<notin> set pre" and "CHR ''`'' \<notin> set body"
    and "\<not> str_in ''```json'' (pre @ ''```'' @ body @ ''```'' @ post)"
  shows "extract_json (pre @ ''```'' @ body @ ''```'' @ post) = Inr (strip body)"
proof -
  let ?rest = "body @ ''```'' @ post"
  have c: "str_in ''```'' (pre @ ''```'' @ ?rest)"
    unfolding str_in_sublist by (rule sublist_appendI)
  have 1: "split_on ''```'' (pre @ ''```'' @ ?rest) = pre # split_on ''```'' ?rest"
    using split_on_fence_open [OF assms(1), of "''``''" ?rest] by simp
  have h: "split_on ''```'' (''```'' @ post) = [] # split_on ''```'' post"
    by (rule split_on_hit) simp
  have 2: "split_on ''```'' ?rest = body # split_on ''```'' post"
    using split_on_before [OF assms(2), of "''``''" "''```'' @ post"] h by simp
  have 3: "split_on ''```'' body = [body]"
    using assms(2) by (rule split_on_absent)
  have "bind_exn (py_split (pre @ ''```'' @ ?rest) ''```'') (\<lambda>parts.
        bind_exn (index parts 1) (\<lambda>inner.
        bind_exn (py_split inner ''```'') (\<lambda>parts2.
        bind_exn (index parts2 0) (\<lambda>body. Inr (strip body))))) = Inr (strip body)"
    unfolding py_split_def by (simp add: 1 2 3 bind_exn_def index_def del: split_on.simps append.simps)
  with c assms(3) show ?thesis
    unfolding extract_json_def by (simp del: split_on.simps str_in.simps append.simps)
qed

text \<open>
  Claim C7. If the generation call raises, the workflow is the fallback: empty steps, data
  sufficiency \<open>unknown\<close>, empty missing data and the note that manual workflow design is
  needed. Otherwise cleaning the stripped response never raises and the workflow is what
  the decoder returns on the cleaned text, or the fallback when the decoder raises; so the
  \<^verbatim>\<open>try\<close> block always yields a workflow. The cleaned text of a response that holds a
  block fenced by \<^verbatim>\<open>```json\<close> and \<^verbatim>\<open>```\<close>, or by \<^verbatim>\<open>```\<close> twice, is the stripped
  inside of the block (for text before the block and a block without backquotes, and in
  the first case no backquote right after the closing fence); a response without fence is
  decoded as it is.
\<close>

theorem workflow_fence_and_fallback:
  "generate_workflow json_loads (Inl e) =
     JObj [(''steps'', JArr []), (''data_sufficiency'', JStr ''unknown''),
           (''missing_data'', JArr []), (''alternatives'', JStr ''Manual workflow design needed'')]
   \<and> (\<exists>cleaned. extract_json (strip raw) = Inr cleaned
         \<and> generate_workflow json_loads (Inr raw) =
             (case json_loads cleaned of
                Inl e' \<Rightarrow> JObj [(''steps'', JArr []), (''data_sufficiency'', JStr ''unknown''),
                                (''missing_data'', JArr []),
                                (''alternatives'', JStr ''Manual workflow design needed'')]
              | Inr workflow \<Rightarrow> workflow))
   \<and> (CHR ''`'' \<notin> set pre \<and> CHR ''`'' \<notin> set body \<and> \<not> startswith post ''`''
        \<longrightarrow> extract_json (pre @ ''```json'' @ body @ ''```'' @ post) = Inr (strip body))
   \<and> (CHR ''`'' \<notin> set pre \<and> CHR ''`'' \<notin> set body
        \<and> \<not> str_in ''```json'' (pre @ ''```'' @ body @ ''```'' @ post)
        \<longrightarrow> extract_json (pre @ ''```'' @ body @ ''```'' @ post) = Inr (strip body))
   \<and> (\<not> str_in ''```'' content \<longrightarrow> extract_json content = Inr content)"
proof -
  have a: "generate_workflow json_loads (Inl e) =
     JObj [(''steps'', JArr []), (''data_sufficiency'', JStr ''unknown''),
           (''missing_data'', JArr []), (''alternatives'', JStr ''Manual workflow design needed'')]"
    by (simp add: generate_workflow_def bind_exn_def fallback_workflow_def)
  obtain cleaned where t: "extract_json (strip raw) = Inr cleaned"
    using extract_json_ok by blast
  have b: "\<exists>cleaned. extract_json (strip raw) = Inr cleaned
         \<and> generate_workflow json_loads (Inr raw) =
             (case json_loads cleaned of
                Inl e' \<Rightarrow> JObj [(''steps'', JArr []), (''data_sufficiency'', JStr ''unknown''),
                                (''missing_data'', JArr []),
                                (''alternatives'', JStr ''Manual workflow design needed'')]
              | Inr workflow \<Rightarrow> workflow)"
    using t unfolding generate_workflow_def bind_exn_def fallback_workflow_def by simp
  have c: "extract_json (pre @ ''```json'' @ body @ ''```'' @ post) = Inr (strip body)"
    if "CHR ''`'' \<notin> set pre \<and> CHR ''`'' \<notin> set body \<and> \<not> startswith post ''`''"
    using that extract_json_fence by blast
  have d: "extract_json (pre @ ''```'' @ body @ ''```'' @ post) = Inr (strip body)"
    if "CHR ''`'' \<notin> set pre \<and> CHR ''`'' \<notin> set body
        \<and> \<not> str_in ''```json'' (pre @ ''```'' @ body @ ''```'' @ post)"
    using that extract_json_plain_fence by blast
  have no3: "\<not> str_in ''```json'' content" if "\<not> str_in ''```'' content"
  proof
    assume "str_in ''```json'' content"
    then have "sublist (''```'' @ ''json'') content" by (simp add: str_in_sublist)
    then have "sublist ''```'' content"
      using sublist_order.order_trans [OF sublist_append_rightI] by blast
    with that show False by (simp add: str_in_sublist)
  qed
  have e: "extract_json content = Inr content" if "\<not> str_in ''```'' content"
    using that no3 [OF that] by (simp add: extract_json_def)
  from a b c d e show ?thesis by blast
qed

theorem workflow_fence_and_fallback_witness:
  "generate_workflow demo_loads (Inr fenced_response)
     = JObj [(''steps'', JArr []), (''data_sufficiency'', JStr ''sufficient'')]
   \<and> generate_workflow demo_loads (Inr ''I cannot design a workflow.'')
     = JObj [(''steps'', JArr []), (''data_sufficiency'', JStr ''unknown''),
             (''missing_data'', JArr []), (''alternatives'', JStr ''Manual workflow design needed'')]
   \<and> extract_json (''Plan: '' @ ''```json'' @ ''{}'' @ ''```'' @ '' done'') = Inr ''{}''
   \<and> extract_json (''Plan: '' @ ''```'' @ '' [] '' @ ''```'' @ []) = Inr ''[]''"
proof -
  have 1: "strip fenced_response
      = (''Here is the workflow:'' @ [CHR 0x0A]) @ ''```json'' @ ([CHR 0x0A] @ sufficient_json @ [CHR 0x0A]) @ ''```'' @ []"
    by code_simp
  have 2: "CHR ''`'' \<notin> set (''Here is the workflow:'' @ [CHR 0x0A])
     \<and> CHR ''`'' \<notin> set ([CHR 0x0A] @ sufficient_json @ [CHR 0x0A]) \<and> \<not> startswith [] ''`''"
    by code_simp
  have 3: "strip ([CHR 0x0A] @ sufficient_json @ [CHR 0x0A]) = sufficient_json"
    by code_simp
  have 4: "demo_loads sufficient_json = Inr (JObj [(''steps'', JArr []), (''data_sufficiency'', JStr ''sufficient'')])"
    by (simp add: demo_loads_def)
  have 5: "extract_json (strip fenced_response) = Inr sufficient_json"
    using workflow_fence_and_fallback
      [where pre = "''Here is the workflow:'' @ [CHR 0x0A]"
          and body = "[CHR 0x0A] @ sufficient_json @ [CHR 0x0A]" and post = "[]"] 1 2 3
    by simp
  have 6: "generate_workflow demo_loads (Inr fenced_response)
     = JObj [(''steps'', JArr []), (''data_sufficiency'', JStr ''sufficient'')]"
    using workflow_fence_and_fallback
      [where json_loads = demo_loads and raw = fenced_response] 4 5
    by auto
  have 7: "\<not> str_in ''```'' (strip ''I cannot design a workflow.'')"
    by code_simp
  have 8: "demo_loads (strip ''I cannot design a workflow.'') = Inl JSONDecodeError"
    by code_simp
  have 9: "extract_json (strip ''I cannot design a workflow.'') = Inr (strip ''I cannot design a workflow.'')"
    using workflow_fence_and_fallback
      [where content = "strip ''I cannot design a workflow.''"] 7
    by blast
  have 10: "generate_workflow demo_loads (Inr ''I cannot design a workflow.'')
     = JObj [(''steps'', JArr []), (''data_sufficiency'', JStr ''unknown''),
             (''missing_data'', JArr []), (''alternatives'', JStr ''Manual workflow design needed'')]"
    using workflow_fence_and_fallback
      [where json_loads = demo_loads and raw = "''I cannot design a workflow.''"] 8 9
    by auto
  have 11: "CHR ''`'' \<notin> set ''Plan: '' \<and> CHR ''`'' \<notin> set ''{}'' \<and> \<not> startswith '' done'' ''`''"
    by simp
  have 12: "strip ''{}'' = ''{}''" by code_simp
  have 13: "extract_json (''Plan: '' @ ''```json'' @ ''{}'' @ ''```'' @ '' done'') = Inr ''{}''"
    using workflow_fence_and_fallback
      [where pre = "''Plan: ''" and body = "''{}''" and post = "'' done''"] 11 12
    by simp
  have 14: "CHR ''`'' \<notin> set ''Plan: '' \<and> CHR ''`'' \<notin> set '' [] ''
     \<and> \<not> str_in ''```json'' (''Plan: '' @ ''```'' @ '' [] '' @ ''```'' @ [])"
    by code_simp
  have 15: "strip '' [] '' = ''[]''" by code_simp
  have 16: "extract_json (''Plan: '' @ ''```'' @ '' [] '' @ ''```'' @ []) = Inr ''[]''"
    using workflow_fence_and_fallback
      [where pre = "''Plan: ''" and body = "'' [] ''" and post = "[]"] 14 15
    by simp
  from 6 10 13 16 show ?thesis by blast
qed

section \<open>Sufficiency check of the assembled specification\<close>

text \<open>
  Claim C6. Whenever the workflow is a dictionary, the specification is assembled without
  a fault, and \<open>can_complete\<close> is true exactly when the dictionary maps
  \<open>data_sufficiency\<close> to the string \<open>sufficient\<close>; a missing key or any other value,
  string or not, gives false, and \<open>status\<close> reports the value (\<open>unknown\<close> for a
  missing key).
\<close>

theorem can_complete_iff_sufficient:
  "generate_workflow json_loads response = JObj items \<longrightarrow>
     (\<exists>spec. generate_analysis_spec json_loads now response q pq octx relevant_data = Inr spec
        \<and> can_complete (sufficiency_check spec)
            = (map_of items ''data_sufficiency'' = Some (JStr ''sufficient''))
        \<and> status (sufficiency_check spec)
            = (case map_of items ''data_sufficiency'' of None \<Rightarrow> JStr ''unknown'' | Some v \<Rightarrow> v))"
  by (auto simp: generate_analysis_spec_def Let_def dict_get_def bind_exn_def split: option.splits)

theorem can_complete_iff_sufficient_witness:
  "(\<exists>spec. generate_analysis_spec demo_loads ''2025-01-01T00:00:00'' (Inr fenced_response)
              ''Analyze residential density near transit stops'' demo_query
              (activate_ontology demo_ontology demo_query)
              (search_knowledge_base demo_kb demo_query) = Inr spec
        \<and> can_complete (sufficiency_check spec)
        \<and> status (sufficiency_check spec) = JStr ''sufficient'')
   \<and> (\<exists>spec. generate_analysis_spec demo_loads ''2025-01-01T00:00:00'' (Inr ''{}'')
              ''Analyze residential density near transit stops'' demo_query
              (activate_ontology demo_ontology demo_query)
              (search_knowledge_base demo_kb demo_query) = Inr spec
        \<and> \<not> can_complete (sufficiency_check spec)
        \<and> status (sufficiency_check spec) = JStr ''unknown'')"
proof -
  have 1: "generate_workflow demo_loads (Inr fenced_response)
        = JObj [(''steps'', JArr []), (''data_sufficiency'', JStr ''sufficient'')]"
    by code_simp
  have 2: "generate_workflow demo_loads (Inr ''{}'') = JObj []"
    by code_simp
  from can_complete_iff_sufficient
         [of demo_loads "Inr fenced_response"
             "[(''steps'', JArr []), (''data_sufficiency'', JStr ''sufficient'')]"
             "''2025-01-01T00:00:00''" "''Analyze residential density near transit stops''"
             demo_query "activate_ontology demo_ontology demo_query"
             "search_knowledge_base demo_kb demo_query"] 1
  have a: "\<exists>spec. generate_analysis_spec demo_loads ''2025-01-01T00:00:00'' (Inr fenced_response)
              ''Analyze residential density near transit stops'' demo_query
              (activate_ontology demo_ontology demo_query)
              (search_knowledge_base demo_kb demo_query) = Inr spec
        \<and> can_complete (sufficiency_check spec)
        \<and> status (sufficiency_check spec) = JStr ''sufficient''"
    by simp
  from can_complete_iff_sufficient
         [of demo_loads "Inr ''{}''" "[]"
             "''2025-01-01T00:00:00''" "''Analyze residential density near transit stops''"
             demo_query "activate_ontology demo_ontology demo_query"
             "search_knowledge_base demo_kb demo_query"] 2
  have b: "\<exists>spec. generate_analysis_spec demo_loads ''2025-01-01T00:00:00'' (Inr ''{}'')
              ''Analyze residential density near transit stops'' demo_query
              (activate_ontology demo_ontology demo_query)
              (search_knowledge_base demo_kb demo_query) = Inr spec
        \<and> \<not> can_complete (sufficiency_check spec)
        \<and> status (sufficiency_check spec) = JStr ''unknown''"
    by simp
  from a b show ?thesis by blast
qed

text \<open>A decoded workflow that is not a dictionary has no \<^verbatim>\<open>get\<close>: the assembly, which
  is outside the \<^verbatim>\<open>try\<close> block, raises.\<close>

lemma assemble_non_object_raises:
  "(\<forall>items. generate_workflow json_loads response \<noteq> JObj items) \<Longrightarrow>
     generate_analysis_spec json_loads now response q pq octx relevant_data = Inl AttributeError"
  by (cases "generate_workflow json_loads response")
     (simp_all add: generate_analysis_spec_def Let_def dict_get_def bind_exn_def)

end
